theory Spec2Isabelle
  imports Main "HOL-Library.Word"
begin

unbundle bit_operations_syntax

section \<open>MIDI stream parser (hardware/midi/midi.h)\<close>

type_synonym uint8_t = "8 word"
type_synonym uint16_t = "16 word"

text \<open>
  The calls a \<^verbatim>\<open>MidiDevice\<close> can receive, one constructor per static member function.
  The two overloads of \<^verbatim>\<open>Aftertouch\<close> are told apart by their arity.
\<close>

datatype event =
    NoteOn uint8_t uint8_t uint8_t
  | NoteOff uint8_t uint8_t uint8_t
  | Aftertouch3 uint8_t uint8_t uint8_t
  | Aftertouch2 uint8_t uint8_t
  | ControlChange uint8_t uint8_t uint8_t
  | ProgramChange uint8_t uint8_t
  | PitchBend uint8_t uint16_t
  | AllSoundOff uint8_t
  | ResetAllControllers uint8_t
  | LocalControl uint8_t uint8_t
  | AllNotesOff uint8_t
  | OmniModeOff uint8_t
  | OmniModeOn uint8_t
  | MonoModeOn uint8_t uint8_t
  | PolyModeOn uint8_t
  | SysExStart
  | SysExByte uint8_t
  | SysExEnd
  | BozoByte uint8_t
  | Clock
  | Start
  | Continue
  | Stop
  | ActiveSensing
  | Reset

text \<open>The member \<^verbatim>\<open>uint8_t data_[3]\<close>: three slots, no more.\<close>

datatype data_array = Data (slot0: uint8_t) (slot1: uint8_t) (slot2: uint8_t)

text \<open>
  \<^verbatim>\<open>data_[i] = v\<close>. An index past the third slot writes outside the array, which
  C++ leaves undefined: the model returns \<open>None\<close> there.
\<close>

fun store :: "data_array \<Rightarrow> uint8_t \<Rightarrow> uint8_t \<Rightarrow> data_array option" where
  "store (Data a b c) i v =
     (if i = 0 then Some (Data v b c)
      else if i = 1 then Some (Data a v c)
      else if i = 2 then Some (Data a b v)
      else None)"

record MidiStreamParser =
  running_status :: uint8_t
  data :: data_array
  data_size :: uint8_t
  expected_data_size :: uint8_t

text \<open>
  The constructor sets the three counters and leaves \<^verbatim>\<open>data_\<close> as it finds it, so the
  initial content of the array is a parameter.
\<close>

definition init_parser :: "data_array \<Rightarrow> MidiStreamParser" where
  "init_parser d =
     \<lparr>running_status = 0, data = d, data_size = 0, expected_data_size = 0\<rparr>"

text \<open>\<^verbatim>\<open>MessageReceived(status)\<close>: the calls made on the device, in order.\<close>

definition MessageReceived :: "data_array \<Rightarrow> uint8_t \<Rightarrow> event list" where
  "MessageReceived d status =
     (if status = 0 then [BozoByte (slot0 d)] else []) @
     (let hi = status AND 0xf0; lo = status AND 0x0f in
      if hi = 0x80 then
        (if slot1 d \<noteq> 0 then [NoteOn lo (slot0 d) (slot1 d)] else [NoteOff lo (slot0 d) 0])
      else if hi = 0x90 then [NoteOff lo (slot0 d) (slot1 d)]
      else if hi = 0xa0 then [Aftertouch3 lo (slot0 d) (slot1 d)]
      else if hi = 0xb0 then
        (if slot0 d = 0x78 then [AllSoundOff lo]
         else if slot0 d = 0x79 then [ResetAllControllers lo]
         else if slot0 d = 0x7a then [LocalControl lo (slot1 d)]
         else if slot0 d = 0x7b then [AllNotesOff lo]
         else if slot0 d = 0x7c then [OmniModeOff lo]
         else if slot0 d = 0x7d then [OmniModeOn lo]
         else if slot0 d = 0x7e then [MonoModeOn lo (slot1 d)]
         else if slot0 d = 0x7f then [PolyModeOn lo]
         else [ControlChange lo (slot0 d) (slot1 d)])
      else if hi = 0xc0 then [ProgramChange lo (slot0 d)]
      else if hi = 0xd0 then [Aftertouch2 lo (slot0 d)]
      else if hi = 0xe0 then
        [PitchBend lo (push_bit 7 (ucast (slot0 d) :: uint16_t) + ucast (slot1 d))]
      else if hi = 0xf0 then
        (if lo = 0x0 then [SysExByte (slot0 d)]
         else if lo = 0x1 \<or> lo = 0x2 \<or> lo = 0x3 \<or> lo = 0x4 \<or> lo = 0x5 \<or> lo = 0x6 then []
         else if lo = 0x7 then [SysExEnd]
         else if lo = 0x8 then [Clock]
         else if lo = 0x9 then []
         else if lo = 0xa then [Start]
         else if lo = 0xb then [Continue]
         else if lo = 0xc then [Stop]
         else if lo = 0xe then [ActiveSensing]
         else if lo = 0xf then [Reset]
         else [])
      else [])"

text \<open>
  The \<^verbatim>\<open>switch (hi)\<close> of \<^verbatim>\<open>PushByte\<close> that chooses \<^verbatim>\<open>expected_data_size_\<close> for a
  status byte, starting from the default of 1.
\<close>

definition status_data_size :: "uint8_t \<Rightarrow> uint8_t" where
  "status_data_size byte =
     (let hi = byte AND 0xf0; lo = byte AND 0x0f in
      if hi = 0x80 \<or> hi = 0x90 \<or> hi = 0xa0 \<or> hi = 0xb0 then 2
      else if hi = 0xc0 \<or> hi = 0xd0 then 1
      else if hi = 0xe0 then 2
      else if hi = 0xf0 then
        (if 0 < lo \<and> lo < 3 then 2 else if 4 \<le> lo then 0 else 1)
      else 1)"

text \<open>The branch of \<^verbatim>\<open>PushByte\<close> for a status byte below \<^verbatim>\<open>0xf8\<close>.\<close>

definition push_status :: "MidiStreamParser \<Rightarrow> uint8_t \<Rightarrow> MidiStreamParser \<times> event list" where
  "push_status s byte =
     (s\<lparr>data_size := 0, expected_data_size := status_data_size byte, running_status := byte\<rparr>,
      (if running_status s = 0xf0 then [SysExEnd] else []) @
      (if byte = 0xf0 then [SysExStart] else []))"

text \<open>The branch for a data byte: \<^verbatim>\<open>data_[data_size_++] = byte\<close>.\<close>

definition push_data :: "MidiStreamParser \<Rightarrow> uint8_t \<Rightarrow> (MidiStreamParser \<times> event list) option" where
  "push_data s byte =
     (case store (data s) (data_size s) byte of
        None \<Rightarrow> None
      | Some d \<Rightarrow> Some (s\<lparr>data := d, data_size := data_size s + 1\<rparr>, []))"

text \<open>The closing test of \<^verbatim>\<open>PushByte\<close>: dispatch once enough data bytes are in.\<close>

definition complete :: "MidiStreamParser \<Rightarrow> MidiStreamParser \<times> event list" where
  "complete s =
     (if expected_data_size s \<le> data_size s then
        (let s1 = s\<lparr>data_size := 0\<rparr> in
         if 0xf0 < running_status s1
         then s1\<lparr>expected_data_size := 0, running_status := 0\<rparr>
         else s1,
         MessageReceived (data s) (running_status s))
      else (s, []))"

definition PushByte :: "MidiStreamParser \<Rightarrow> uint8_t \<Rightarrow> (MidiStreamParser \<times> event list) option" where
  "PushByte s byte =
     (if 0xf8 \<le> byte then Some (s, MessageReceived (data s) byte)
      else
        (case (if 0x80 \<le> byte then Some (push_status s byte) else push_data s byte) of
           None \<Rightarrow> None
         | Some (s1, ev1) \<Rightarrow>
             (case complete s1 of (s2, ev2) \<Rightarrow> Some (s2, ev1 @ ev2))))"

text \<open>Feeding a byte sequence, one \<^verbatim>\<open>PushByte\<close> per byte, collecting the device calls.\<close>

fun push_bytes :: "MidiStreamParser \<Rightarrow> uint8_t list \<Rightarrow> (MidiStreamParser \<times> event list) option" where
  "push_bytes s [] = Some (s, [])"
| "push_bytes s (b # bs) =
     (case PushByte s b of
        None \<Rightarrow> None
      | Some (s1, ev1) \<Rightarrow>
          (case push_bytes s1 bs of
             None \<Rightarrow> None
           | Some (s2, ev2) \<Rightarrow> Some (s2, ev1 @ ev2)))"


text \<open>
  The invariant of the parser state: \<^verbatim>\<open>data_size_ \<le> expected_data_size_ \<le> 2\<close>, and
  \<^verbatim>\<open>running_status_\<close> is 0 or has bit 7 set.
\<close>

definition parser_invariant :: "MidiStreamParser \<Rightarrow> bool" where
  "parser_invariant s \<longleftrightarrow>
     data_size s \<le> expected_data_size s \<and> expected_data_size s \<le> 2 \<and>
     (running_status s = 0 \<or> bit (running_status s) 7)"

section \<open>LCD display driver (hardware/io/devices/sparkfun\_ser\_lcd.h)\<close>

definition kLcdNoCursor :: uint8_t where
  "kLcdNoCursor = 0xff"

definition kLcdCursorBlinkRate :: uint8_t where
  "kLcdCursorBlinkRate = 0x7f"

definition kLcdCursor :: uint8_t where
  "kLcdCursor = 0xff"

text \<open>
  The template parameters \<^verbatim>\<open>width\<close> and \<^verbatim>\<open>height\<close>, at their default values, and the
  two enumerators derived from them.
\<close>

definition width :: nat where
  "width = 16"

definition height :: nat where
  "height = 2"

definition lcd_buffer_size :: nat where
  "lcd_buffer_size = width * height"

definition lcd_buffer_size_wrap :: nat where
  "lcd_buffer_size_wrap = width * height - 1"

text \<open>
  Modelled from the spec: \<^verbatim>\<open>Log2<n>::value\<close> of \<^verbatim>\<open>hardware/io/log2.h\<close>, a header that is
  not among the sources. The driver shifts the row bits of a position by
  \<^verbatim>\<open>Log2<64 / width>::value\<close> to reach the row offset of the display's addressing scheme;
  the name is read as the base-2 logarithm, rounded down.
\<close>

fun Log2 :: "nat \<Rightarrow> nat" where
  "Log2 n = (if n < 2 then 0 else Suc (Log2 (n div 2)))"

text \<open>
  The static members of \<^verbatim>\<open>Display\<close>. \<^verbatim>\<open>local_\<close> is the page the display ought to show,
  \<^verbatim>\<open>remote_\<close> the page it is known to show.
\<close>

record Display =
  local :: "uint8_t list"
  remote :: "uint8_t list"
  scan_position :: uint8_t
  scan_position_last_write :: uint8_t
  blink :: uint8_t
  blink_clock :: uint8_t
  cursor_position :: uint8_t
  status :: uint8_t

text \<open>
  Static storage starts zeroed. \<^verbatim>\<open>Init\<close> fills the two pages and sets three of the six
  scalars; the bytes it sends to the serial output are not part of this model.
\<close>

definition zero_display :: Display where
  "zero_display =
     \<lparr>local = replicate lcd_buffer_size 0, remote = replicate lcd_buffer_size 0,
      scan_position = 0, scan_position_last_write = 0, blink = 0, blink_clock = 0,
      cursor_position = 0, status = 0\<rparr>"

definition Init :: "Display \<Rightarrow> Display" where
  "Init d =
     d\<lparr>local := replicate lcd_buffer_size 0x20,
       remote := replicate lcd_buffer_size 0x3f,
       scan_position_last_write := 255,
       blink := 0,
       cursor_position := 255\<rparr>"

definition set_cursor_position :: "uint8_t \<Rightarrow> Display \<Rightarrow> Display" where
  "set_cursor_position cursor d = d\<lparr>cursor_position := cursor\<rparr>"

text \<open>
  \<^verbatim>\<open>page[i]\<close> as a read. An index past the end of the page reads outside the array,
  which C++ leaves undefined: \<open>None\<close>.
\<close>

definition load :: "uint8_t list \<Rightarrow> uint8_t \<Rightarrow> uint8_t option" where
  "load page i = (if unat i < length page then Some (page ! unat i) else None)"

text \<open>The first step of \<^verbatim>\<open>Update\<close>: the blink clock, the blink phase and the status.\<close>

definition tick_blink_clock :: "Display \<Rightarrow> Display" where
  "tick_blink_clock d =
     (let d1 = d\<lparr>blink_clock := (blink_clock d + 1) AND kLcdCursorBlinkRate\<rparr> in
      if blink_clock d1 = 0 then d1\<lparr>blink := NOT (blink d1), status := 0\<rparr> else d1)"

text \<open>
  The character to show at the scan position: the cursor, the status indicator or the
  content of \<^verbatim>\<open>local_\<close>. Every path but the cursor's reads \<^verbatim>\<open>local_[scan_position_]\<close>.
\<close>

definition resolve_character :: "Display \<Rightarrow> uint8_t option" where
  "resolve_character d =
     (if scan_position d = cursor_position d \<and> blink d \<noteq> 0 then Some kLcdCursor
      else
        (case load (local d) (scan_position d) of
           None \<Rightarrow> None
         | Some c \<Rightarrow>
             Some (if status d \<noteq> 0 \<and>
                      (scan_position d = 0 \<or> unat (scan_position d) = width - 1) \<and>
                      c = 0x20
                   then status d - 1 else c)))"

text \<open>
  The argument of the cursor move command. The operands are promoted to \<^verbatim>\<open>int\<close>, and
  each \<^verbatim>\<open>|=\<close> truncates to a byte.
\<close>

definition cursor_move_argument :: "uint8_t \<Rightarrow> uint8_t" where
  "cursor_move_argument sp =
     (0x80 OR
      word_of_int (push_bit (Log2 (64 div width)) (uint sp AND NOT (int (width - 1))))) OR
     word_of_int (uint sp AND int (width - 1))"

text \<open>The bytes handed to \<^verbatim>\<open>DisplaySerialOutput::Overwrite\<close> for one character.\<close>

definition transmit :: "Display \<Rightarrow> uint8_t \<Rightarrow> uint8_t list" where
  "transmit d character =
     (if uint (scan_position d) = uint (scan_position_last_write d) + 1 \<and>
         uint (scan_position d) AND int (width - 1) \<noteq> 0
      then [character]
      else [0xfe, cursor_move_argument (scan_position d), character])"

text \<open>
  \<^verbatim>\<open>Update\<close>. The first argument is what \<^verbatim>\<open>DisplaySerialOutput::writable()\<close> returns at
  the call; the result holds the bytes written to the serial output.
\<close>

definition Update :: "nat \<Rightarrow> Display \<Rightarrow> (Display \<times> uint8_t list) option" where
  "Update writable d0 =
     (if writable < 3 then Some (d0, [])
      else
        (let d = tick_blink_clock d0 in
         case resolve_character d of
           None \<Rightarrow> None
         | Some character \<Rightarrow>
             (case load (remote d) (scan_position d) of
                None \<Rightarrow> None
              | Some r \<Rightarrow>
                  (case (if character \<noteq> r \<or> scan_position d = cursor_position d
                         then (d\<lparr>remote := (remote d)[unat (scan_position d) := character],
                                 scan_position_last_write := scan_position d\<rparr>,
                               transmit d character)
                         else (d, []))
                   of (d1, out) \<Rightarrow>
                     Some (d1\<lparr>scan_position :=
                                word_of_int ((uint (scan_position d1) + 1) AND
                                             int lcd_buffer_size_wrap)\<rparr>,
                           out)))))"

text \<open>A run of calls to \<^verbatim>\<open>Update\<close>, one per element: the free capacity at each call.\<close>

fun Updates :: "nat list \<Rightarrow> Display \<Rightarrow> (Display \<times> uint8_t list) option" where
  "Updates [] d = Some (d, [])"
| "Updates (w # ws) d =
     (case Update w d of
        None \<Rightarrow> None
      | Some (d1, o1) \<Rightarrow>
          (case Updates ws d1 of
             None \<Rightarrow> None
           | Some (d2, o2) \<Rightarrow> Some (d2, o1 @ o2)))"


text \<open>
  The character \<^verbatim>\<open>Print\<close> stores for a character of the text: a blank in place of a
  control character.
\<close>

definition written_character :: "uint8_t \<Rightarrow> uint8_t" where
  "written_character character =
     (if character = 124 \<or> character = 254 \<or> (8 \<le> character \<and> character < 32)
      then 0x20 else character)"

text \<open>
  The \<^verbatim>\<open>while\<close> loop of \<^verbatim>\<open>Print\<close>. The text is the bytes of the string before its
  terminating zero, so the end of the list is where \<^verbatim>\<open>*text\<close> reads zero; \<open>destination\<close>
  is the offset of the pointer into \<^verbatim>\<open>local_\<close>. A write past the end of the page is
  outside the array: \<open>None\<close>.
\<close>

fun Print_loop :: "uint8_t list \<Rightarrow> nat \<Rightarrow> nat \<Rightarrow> uint8_t list \<Rightarrow> uint8_t list option" where
  "Print_loop page destination row [] = Some page"
| "Print_loop page destination row (character # text) =
     (if character = 0 \<or> row = 0 then Some page
      else if destination < length page
      then Print_loop (page[destination := written_character character])
             (destination + 1) (row - 1) text
      else None)"

text \<open>\<^verbatim>\<open>Print(line, text)\<close>, without its log lines.\<close>

definition Print :: "uint8_t \<Rightarrow> uint8_t list \<Rightarrow> Display \<Rightarrow> Display option" where
  "Print line text d =
     (case Print_loop (local d) (push_bit (Log2 width) (unat line)) width text of
        None \<Rightarrow> None
      | Some page \<Rightarrow> Some (d\<lparr>local := page\<rparr>))"

text \<open>
  A display after \<^verbatim>\<open>Init\<close> on which \<^verbatim>\<open>Hi\<close> has been printed on the first line and sent.
\<close>

definition hi_shown :: Display where
  "hi_shown =
     (Init zero_display)
       \<lparr>local := [0x48, 0x69] @ replicate 30 0x20,
        remote := [0x48, 0x69] @ replicate 30 0x20\<rparr>"

text \<open>
  A display that shows what it ought to, with the cursor on the first cell: the state
  after \<^verbatim>\<open>Init\<close>, a converged page of blanks and \<^verbatim>\<open>set_cursor_position(0)\<close>.
\<close>

definition cursor_at_home :: Display where
  "cursor_at_home =
     set_cursor_position 0 ((Init zero_display)\<lparr>remote := replicate lcd_buffer_size 0x20\<rparr>)"

section \<open>Facts about bytes\<close>

lemmas midi_defs =
  PushByte_def push_status_def push_data_def complete_def status_data_size_def
  MessageReceived_def

lemmas word_cmp = word_le_nat_alt word_less_nat_alt

lemma unat_byte_lt: "unat (b::uint8_t) < 256"
  using unsigned_less[of b, where 'a=nat] by simp

lemma byte_of_unat:
  fixes b :: uint8_t
  assumes "unat b = k"
  shows "b = word_of_nat k"
  using assms by auto

text \<open>A property of every byte follows from checking the 256 values.\<close>

lemma byte_induct:
  assumes "list_all P (map word_of_nat [0..<256])"
  shows "P (b::uint8_t)"
proof -
  have "b \<in> word_of_nat ` {0..<256}"
    using unat_byte_lt[of b] by (intro image_eqI[where x="unat b"]) auto
  with assms show ?thesis unfolding list_all_iff by auto
qed

lemma high_bit_iff: "bit (b::uint8_t) 7 \<longleftrightarrow> 0x80 \<le> b"
  by (rule byte_induct) code_simp

lemma realtime_cases:
  assumes "(0xf8::uint8_t) \<le> b"
  shows "b \<in> {0xf8, 0xf9, 0xfa, 0xfb, 0xfc, 0xfd, 0xfe, 0xff}"
proof -
  have "248 \<le> unat b" using assms by (simp add: word_le_nat_alt)
  with unat_byte_lt[of b] have "unat b \<in> {248, 249, 250, 251, 252, 253, 254, 255}" by auto
  then show ?thesis by (auto dest!: byte_of_unat)
qed

lemma le_2_cases:
  assumes "(x::uint8_t) \<le> 2"
  shows "x = 0 \<or> x = 1 \<or> x = 2"
proof -
  from assms have "unat x \<le> 2" by (simp add: word_le_nat_alt)
  then have "unat x = 0 \<or> unat x = 1 \<or> unat x = 2" by arith
  then show ?thesis by (auto dest!: byte_of_unat)
qed

section \<open>The parser: running status, realtime bytes, sysex\<close>

lemma status_data_size_le: "status_data_size b \<le> 2"
  by (simp add: status_data_size_def Let_def word_cmp)

lemma store_in_range: "i \<le> 2 \<Longrightarrow> \<exists>d'. store d i v = Some d'"
  by (cases d) (auto dest: le_2_cases)

lemma MessageReceived_realtime:
  assumes "0xf8 \<le> b"
  shows "MessageReceived d b =
     (if b = 0xf8 then [Clock] else if b = 0xfa then [Start]
      else if b = 0xfb then [Continue] else if b = 0xfc then [Stop]
      else if b = 0xfe then [ActiveSensing] else if b = 0xff then [Reset] else [])"
  using realtime_cases[OF assms] by (auto simp: MessageReceived_def)

lemma push_bytes_append:
  "push_bytes s (xs @ ys) =
     (case push_bytes s xs of
        None \<Rightarrow> None
      | Some (s1, e1) \<Rightarrow>
          (case push_bytes s1 ys of
             None \<Rightarrow> None
           | Some (s2, e2) \<Rightarrow> Some (s2, e1 @ e2)))"
  by (induction xs arbitrary: s) (auto split: option.splits)

lemma PushByte_invariant:
  assumes "parser_invariant s"
  shows "\<exists>s' evs. PushByte s b = Some (s', evs) \<and> parser_invariant s'"
proof -
  from assms have ds: "data_size s \<le> 2"
    unfolding parser_invariant_def by (simp add: word_cmp)
  from assms have es: "expected_data_size s \<le> 2"
    unfolding parser_invariant_def by simp
  consider (realtime) "0xf8 \<le> b" | (status) "0x80 \<le> b" "\<not> 0xf8 \<le> b" | (data) "\<not> 0x80 \<le> b"
    by (auto simp: word_cmp)
  then show ?thesis
  proof cases
    case realtime
    with assms show ?thesis by (simp add: PushByte_def)
  next
    case status
    then have "bit b 7" by (simp add: high_bit_iff)
    with status status_data_size_le[of b] show ?thesis
      by (auto simp: PushByte_def push_status_def complete_def parser_invariant_def Let_def)
  next
    case data
    from store_in_range[OF ds] obtain d' where d': "store (data s) (data_size s) b = Some d'"
      by blast
    from ds es have "data_size s + 1 \<le> expected_data_size s"
      if "\<not> expected_data_size s \<le> data_size s + 1"
      using that by (auto dest!: le_2_cases)
    with data d' assms show ?thesis
      by (auto simp: PushByte_def push_data_def complete_def parser_invariant_def Let_def word_cmp)
  qed
qed

lemma channel_voice_hi:
  "0x80 \<le> (S::uint8_t) \<longrightarrow> S \<le> 0xef \<longrightarrow>
     S AND 0xf0 \<in> set [0x80, 0x90, 0xa0, 0xb0, 0xc0, 0xd0, 0xe0]"
  by (rule byte_induct) code_simp

lemma channel_voice_one_call:
  assumes "0x80 \<le> S" "S \<le> 0xef"
  shows "length (MessageReceived d S) = 1"
proof -
  from assms have "S \<noteq> 0" by auto
  moreover from assms channel_voice_hi[of S]
  have "S AND 0xf0 \<in> {0x80, 0x90, 0xa0, 0xb0, 0xc0, 0xd0, 0xe0}" by simp
  ultimately show ?thesis by (auto simp: MessageReceived_def Let_def)
qed

lemma PushByte_status:
  assumes "0x80 \<le> b" "b < 0xf8"
  shows "PushByte s b =
     (case complete (fst (push_status s b)) of
        (s2, ev2) \<Rightarrow> Some (s2, snd (push_status s b) @ ev2))"
  using assms by (simp add: PushByte_def word_cmp split: prod.splits)

lemma PushByte_data:
  assumes "b < 0x80"
  shows "PushByte s b =
     (case push_data s b of
        None \<Rightarrow> None
      | Some (s1, ev1) \<Rightarrow> (case complete s1 of (s2, ev2) \<Rightarrow> Some (s2, ev1 @ ev2)))"
  using assms by (simp add: PushByte_def word_cmp)

lemma running_status_two_messages:
  assumes S: "0x80 \<le> S" "S \<le> 0xef" "status_data_size S = 2"
    and D: "D1 < 0x80" "D2 < 0x80" "D1' < 0x80" "D2' < 0x80"
  shows "push_bytes s [S, D1, D2, D1', D2'] =
     Some (s\<lparr>running_status := S, data := Data D1' D2' (slot2 (data s)), data_size := 0,
             expected_data_size := 2\<rparr>,
           (if running_status s = 0xf0 then [SysExEnd] else []) @
           MessageReceived (Data D1 D2 (slot2 (data s))) S @
           MessageReceived (Data D1' D2' (slot2 (data s))) S)"
proof -
  from S have S': "S \<noteq> 0xf0" "S < 0xf8" "\<not> 0xf0 < S" by (auto simp: word_cmp)
  obtain a b c where d: "data s = Data a b c" by (cases "data s")
  from S' show ?thesis
    by (simp add: PushByte_status[OF S(1) S'(2)] PushByte_data[OF D(1)] PushByte_data[OF D(2)]
        PushByte_data[OF D(3)] PushByte_data[OF D(4)] push_status_def push_data_def complete_def
        S(3) d word_cmp)
qed

lemma no_status_data_byte:
  assumes "running_status s = 0" "expected_data_size s = 0" "data_size s = 0" "b < 0x80"
  shows "PushByte s b =
     Some (s\<lparr>data := Data b (slot1 (data s)) (slot2 (data s))\<rparr>, [BozoByte b])"
  using assms by (cases "data s") (simp add: midi_defs word_cmp)

lemma system_common_clears:
  assumes T: "0xf0 < T" "T < 0xf8"
    and ds: "length ds = unat (status_data_size T)" "\<forall>x\<in>set ds. x < 0x80"
  shows "\<exists>s' evs. push_bytes s (T # ds) = Some (s', evs) \<and> running_status s' = 0 \<and>
           expected_data_size s' = 0 \<and> data_size s' = 0"
proof -
  from T have T': "0x80 \<le> T" by (simp add: word_cmp)
  obtain a b c where d: "data s = Data a b c" by (cases "data s")
  from status_data_size_le[of T]
  have "status_data_size T = 0 \<or> status_data_size T = 1 \<or> status_data_size T = 2"
    by (rule le_2_cases)
  then consider (none) "status_data_size T = 0" | (one) "status_data_size T = 1"
    | (two) "status_data_size T = 2"
    by blast
  then show ?thesis
  proof cases
    case none
    with ds have "ds = []" by simp
    with T(1) show ?thesis
      by (simp add: PushByte_status[OF T' T(2)] push_status_def complete_def none word_cmp)
  next
    case one
    with ds obtain x where x: "ds = [x]" "x < 0x80"
      by (cases ds) auto
    from T(1) show ?thesis
      by (simp add: x(1) PushByte_status[OF T' T(2)] PushByte_data[OF x(2)] push_status_def
          push_data_def complete_def one d word_cmp)
  next
    case two
    with ds obtain x y where xy: "ds = [x, y]" "x < 0x80" "y < 0x80"
      by (cases ds; cases "tl ds") auto
    from T(1) show ?thesis
      by (simp add: xy(1) PushByte_status[OF T' T(2)] PushByte_data[OF xy(2)]
          PushByte_data[OF xy(3)] push_status_def push_data_def complete_def two d word_cmp)
  qed
qed

text \<open>
  In every state the parser reaches, no running status means no data byte is awaited: the
  two fields are cleared together, and a status byte sets both.
\<close>

lemma PushByte_idle:
  assumes "PushByte s b = Some (s', evs)"
    and "running_status s = 0 \<longrightarrow> expected_data_size s = 0"
  shows "running_status s' = 0 \<longrightarrow> expected_data_size s' = 0"
  using assms
  by (auto simp: PushByte_def push_status_def push_data_def complete_def Let_def word_cmp
      split: if_splits option.splits)

lemma push_bytes_reach:
  assumes "parser_invariant s"
    and "running_status s = 0 \<longrightarrow> expected_data_size s = 0"
  shows "\<exists>s' evs. push_bytes s bs = Some (s', evs) \<and> parser_invariant s' \<and>
           (running_status s' = 0 \<longrightarrow> expected_data_size s' = 0)"
  using assms
proof (induction bs arbitrary: s)
  case Nil
  then show ?case by simp
next
  case (Cons b bs)
  from PushByte_invariant[OF Cons.prems(1), of b] obtain s1 ev1 where
    s1: "PushByte s b = Some (s1, ev1)" "parser_invariant s1"
    by blast
  from PushByte_idle[OF s1(1) Cons.prems(2)]
  have "running_status s1 = 0 \<longrightarrow> expected_data_size s1 = 0" .
  from Cons.IH[OF s1(2) this] s1(1) show ?case by auto
qed

lemma note_example:
  "push_bytes (init_parser d) [0x90, 0x40, 0x7f, 0x3c, 0x00] =
     Some (\<lparr>running_status = 0x90, data = Data 0x3c 0 (slot2 d), data_size = 0,
            expected_data_size = 2\<rparr>,
           [NoteOff 0 0x40 0x7f, NoteOff 0 0x3c 0])"
  by (cases d) (simp add: init_parser_def midi_defs word_cmp)

text \<open>
  C1, as the code has it. From the constructed state, the bytes
  \<^verbatim>\<open>0x90 0x40 0x7f 0x3c 0x00\<close> make exactly two calls on the device, both for channel 0:
  the first carries note \<^verbatim>\<open>0x40\<close> and velocity \<^verbatim>\<open>0x7f\<close>, and is a note call
  (\<^verbatim>\<open>NoteOn\<close> or \<^verbatim>\<open>NoteOff\<close>); the second, sent under the running status, carries note
  \<^verbatim>\<open>0x3c\<close> and velocity 0 and is \<^verbatim>\<open>NoteOff\<close>, not \<^verbatim>\<open>NoteOn\<close>.
\<close>

theorem note_on_running_status_example:
  "\<exists>s e. push_bytes (init_parser d) [0x90, 0x40, 0x7f, 0x3c, 0x00] =
            Some (s, [e, NoteOff 0 0x3c 0]) \<and>
          e \<in> {NoteOn 0 0x40 0x7f, NoteOff 0 0x40 0x7f} \<and> running_status s = 0x90"
  by (subst note_example) simp

text \<open>
  The sequence of C1 does not produce \<^verbatim>\<open>NoteOn(0, 0x40, 0x7f)\<close> followed by
  \<^verbatim>\<open>NoteOn(0, 0x3c, 0)\<close>: \<^verbatim>\<open>MessageReceived\<close> answers status \<^verbatim>\<open>0x90\<close> with
  \<^verbatim>\<open>NoteOff\<close>.
\<close>

theorem note_on_example_counterexample:
  "map_option snd (push_bytes (init_parser (Data 0 0 0)) [0x90, 0x40, 0x7f, 0x3c, 0x00]) =
     Some [NoteOff 0 0x40 0x7f, NoteOff 0 0x3c 0] \<and>
   map_option snd (push_bytes (init_parser (Data 0 0 0)) [0x90, 0x40, 0x7f, 0x3c, 0x00]) \<noteq>
     Some [NoteOn 0 0x40 0x7f, NoteOn 0 0x3c 0]"
  by (subst (1 2) note_example) simp

text \<open>
  C2, as the code has it. A byte \<^verbatim>\<open>b \<ge> 0xf8\<close> is dispatched at once and leaves the whole
  parser state as it was. \<^verbatim>\<open>0xf8\<close>, \<^verbatim>\<open>0xfa\<close>, \<^verbatim>\<open>0xfb\<close>, \<^verbatim>\<open>0xfc\<close>, \<^verbatim>\<open>0xfe\<close> and \<^verbatim>\<open>0xff\<close>
  make one call each (\<^verbatim>\<open>Clock\<close>, \<^verbatim>\<open>Start\<close>, \<^verbatim>\<open>Continue\<close>, \<^verbatim>\<open>Stop\<close>,
  \<^verbatim>\<open>ActiveSensing\<close>, \<^verbatim>\<open>Reset\<close>); \<^verbatim>\<open>0xf9\<close> and \<^verbatim>\<open>0xfd\<close> make none. Put anywhere in a
  byte sequence, such a byte adds its own call at that place and changes neither the other
  calls nor the final state.
\<close>

theorem realtime_passthrough:
  "0xf8 \<le> b \<longrightarrow>
     PushByte s b =
       Some (s, if b = 0xf8 then [Clock] else if b = 0xfa then [Start]
                else if b = 0xfb then [Continue] else if b = 0xfc then [Stop]
                else if b = 0xfe then [ActiveSensing] else if b = 0xff then [Reset]
                else []) \<and>
     (push_bytes s xs = Some (s1, e1) \<longrightarrow> push_bytes s1 ys = Some (s2, e2) \<longrightarrow>
        push_bytes s (xs @ ys) = Some (s2, e1 @ e2) \<and>
        push_bytes s (xs @ b # ys) = Some (s2, e1 @ MessageReceived (data s1) b @ e2))"
proof (intro impI conjI)
  assume b: "0xf8 \<le> b"
  show "PushByte s b =
       Some (s, if b = 0xf8 then [Clock] else if b = 0xfa then [Start]
                else if b = 0xfb then [Continue] else if b = 0xfc then [Stop]
                else if b = 0xfe then [ActiveSensing] else if b = 0xff then [Reset]
                else [])"
    using b MessageReceived_realtime[OF b] by (simp add: PushByte_def)
  assume xs: "push_bytes s xs = Some (s1, e1)" and ys: "push_bytes s1 ys = Some (s2, e2)"
  show "push_bytes s (xs @ ys) = Some (s2, e1 @ e2)"
    using xs ys by (simp add: push_bytes_append)
  have "push_bytes s1 (b # ys) = Some (s2, MessageReceived (data s1) b @ e2)"
    using b ys by (simp add: PushByte_def)
  with xs show "push_bytes s (xs @ b # ys) = Some (s2, e1 @ MessageReceived (data s1) b @ e2)"
    by (simp add: push_bytes_append)
qed

text \<open>
  A timing clock between the two data bytes of a control change: the clock is delivered
  at once, the control change when its second data byte arrives.
\<close>

theorem realtime_passthrough_witness:
  "PushByte (init_parser (Data 0 0 0)) 0xf8 = Some (init_parser (Data 0 0 0), [Clock]) \<and>
   map_option snd (push_bytes (init_parser (Data 0 0 0)) ([0xb0, 0x07] @ 0xf8 # [0x64])) =
     Some [Clock, ControlChange 0 0x07 0x64]"
proof -
  let ?s = "init_parser (Data 0 0 0)"
  let ?s1 = "\<lparr>running_status = 0xb0, data = Data 0x07 0 0, data_size = 1,
              expected_data_size = 2\<rparr>"
  let ?s2 = "\<lparr>running_status = 0xb0, data = Data 0x07 0x64 0, data_size = 0,
              expected_data_size = 2\<rparr>"
  have rt: "(0xf8::uint8_t) \<le> 0xf8" by simp
  have xs: "push_bytes ?s [0xb0, 0x07] = Some (?s1, [])"
    by (simp add: init_parser_def midi_defs word_cmp)
  have ys: "push_bytes ?s1 [0x64] = Some (?s2, [ControlChange 0 0x07 0x64])"
    by (simp add: midi_defs word_cmp)
  have ev: "MessageReceived (data ?s1) 0xf8 = [Clock]"
    by (simp add: MessageReceived_def)
  from realtime_passthrough[of "0xf8" ?s "[0xb0, 0x07]" ?s1 "[]" "[0x64]" ?s2
      "[ControlChange 0 0x07 0x64]"] rt xs ys
  have "PushByte ?s 0xf8 = Some (?s, [Clock])"
    and "push_bytes ?s ([0xb0, 0x07] @ 0xf8 # [0x64]) =
      Some (?s2, [] @ MessageReceived (data ?s1) 0xf8 @ [ControlChange 0 0x07 0x64])"
    by simp_all
  then show ?thesis by (simp only: ev map_option_case option.simps snd_conv append.simps)
qed

text \<open>
  The byte \<^verbatim>\<open>0xf9\<close> is at least \<^verbatim>\<open>0xf8\<close> and makes no call on the device: the
  \<^verbatim>\<open>switch\<close> of \<^verbatim>\<open>MessageReceived\<close> has an empty case for it.
\<close>

theorem realtime_silent_counterexample:
  "(0xf8::uint8_t) \<le> 0xf9 \<and>
   PushByte (init_parser (Data 0 0 0)) 0xf9 = Some (init_parser (Data 0 0 0), [])"
  by (simp add: PushByte_def MessageReceived_def)

text \<open>
  C3. A channel status byte \<^verbatim>\<open>S\<close> (\<^verbatim>\<open>0x80 \<le> S \<le> 0xef\<close>) that expects two data bytes,
  followed by the data bytes \<^verbatim>\<open>D1 D2 D1' D2'\<close>, dispatches two messages, both with status
  \<^verbatim>\<open>S\<close>, the first on \<^verbatim>\<open>D1 D2\<close> and the second on \<^verbatim>\<open>D1' D2'\<close>, each one call on the
  device, and \<^verbatim>\<open>S\<close> stays the running status. A system common status byte \<^verbatim>\<open>T\<close>
  (\<^verbatim>\<open>0xf0 < T < 0xf8\<close>) followed by the data bytes it expects leaves the running status 0
  and nothing expected, so that a further data byte is reported by \<^verbatim>\<open>BozoByte\<close>.
\<close>

theorem running_status_carry_over:
  "(0x80 \<le> S \<and> S \<le> 0xef \<and> status_data_size S = 2 \<and>
    D1 < 0x80 \<and> D2 < 0x80 \<and> D1' < 0x80 \<and> D2' < 0x80 \<longrightarrow>
      push_bytes s [S, D1, D2, D1', D2'] =
        Some (s\<lparr>running_status := S, data := Data D1' D2' (slot2 (data s)), data_size := 0,
                expected_data_size := 2\<rparr>,
              (if running_status s = 0xf0 then [SysExEnd] else []) @
              MessageReceived (Data D1 D2 (slot2 (data s))) S @
              MessageReceived (Data D1' D2' (slot2 (data s))) S) \<and>
      length (MessageReceived (Data D1 D2 (slot2 (data s))) S) = 1 \<and>
      length (MessageReceived (Data D1' D2' (slot2 (data s))) S) = 1) \<and>
   (0xf0 < T \<and> T < 0xf8 \<and> length ds = unat (status_data_size T) \<and>
    (\<forall>x\<in>set ds. x < 0x80) \<and> y < 0x80 \<longrightarrow>
      (\<exists>t' evs t''. push_bytes t (T # ds) = Some (t', evs) \<and> running_status t' = 0 \<and>
         expected_data_size t' = 0 \<and> PushByte t' y = Some (t'', [BozoByte y])))"
proof (intro conjI impI; (elim conjE)?)
  assume S: "0x80 \<le> S" "S \<le> 0xef" "status_data_size S = 2"
    and D: "D1 < 0x80" "D2 < 0x80" "D1' < 0x80" "D2' < 0x80"
  show "push_bytes s [S, D1, D2, D1', D2'] =
        Some (s\<lparr>running_status := S, data := Data D1' D2' (slot2 (data s)), data_size := 0,
                expected_data_size := 2\<rparr>,
              (if running_status s = 0xf0 then [SysExEnd] else []) @
              MessageReceived (Data D1 D2 (slot2 (data s))) S @
              MessageReceived (Data D1' D2' (slot2 (data s))) S)"
    by (rule running_status_two_messages[OF S D])
  show "length (MessageReceived (Data D1 D2 (slot2 (data s))) S) = 1"
    by (rule channel_voice_one_call[OF S(1,2)])
  show "length (MessageReceived (Data D1' D2' (slot2 (data s))) S) = 1"
    by (rule channel_voice_one_call[OF S(1,2)])
next
  assume T: "0xf0 < T" "T < 0xf8"
    and ds: "length ds = unat (status_data_size T)" "\<forall>x\<in>set ds. x < 0x80"
    and y: "y < 0x80"
  from system_common_clears[OF T ds, of t] obtain t' evs where
    t': "push_bytes t (T # ds) = Some (t', evs)" "running_status t' = 0"
      "expected_data_size t' = 0" "data_size t' = 0"
    by blast
  from no_status_data_byte[OF t'(2,3,4) y] t'
  show "\<exists>t' evs t''. push_bytes t (T # ds) = Some (t', evs) \<and> running_status t' = 0 \<and>
         expected_data_size t' = 0 \<and> PushByte t' y = Some (t'', [BozoByte y])"
    by blast
qed

text \<open>
  Two control changes under one status byte, and a song position pointer (\<^verbatim>\<open>0xf2\<close>, two
  data bytes) after which a data byte has no status to run under.
\<close>

theorem running_status_carry_over_witness:
  "map_option snd (push_bytes (init_parser (Data 0 0 0)) [0xb0, 0x07, 0x64, 0x0a, 0x40]) =
     Some [ControlChange 0 0x07 0x64, ControlChange 0 0x0a 0x40] \<and>
   (\<exists>t' evs t''. push_bytes (init_parser (Data 0 0 0)) (0xf2 # [0x01, 0x02]) = Some (t', evs) \<and>
      running_status t' = 0 \<and> expected_data_size t' = 0 \<and>
      PushByte t' 0x05 = Some (t'', [BozoByte 0x05]))"
proof -
  let ?s = "init_parser (Data 0 0 0)"
  have S: "0x80 \<le> (0xb0::uint8_t) \<and> (0xb0::uint8_t) \<le> 0xef \<and> status_data_size 0xb0 = 2 \<and>
      (0x07::uint8_t) < 0x80 \<and> (0x64::uint8_t) < 0x80 \<and> (0x0a::uint8_t) < 0x80 \<and>
      (0x40::uint8_t) < 0x80"
    by (simp add: status_data_size_def)
  have T: "0xf0 < (0xf2::uint8_t) \<and> (0xf2::uint8_t) < 0xf8 \<and>
      length [0x01, 0x02 :: uint8_t] = unat (status_data_size 0xf2) \<and>
      (\<forall>x\<in>set [0x01, 0x02 :: uint8_t]. x < 0x80) \<and> (0x05::uint8_t) < 0x80"
    by (simp add: status_data_size_def)
  have ev: "MessageReceived (Data 0x07 0x64 0) 0xb0 = [ControlChange 0 0x07 0x64]"
    "MessageReceived (Data 0x0a 0x40 0) 0xb0 = [ControlChange 0 0x0a 0x40]"
    by (simp_all add: MessageReceived_def)
  note inst = running_status_carry_over[of "0xb0" "0x07" "0x64" "0x0a" "0x40" ?s "0xf2"
      "[0x01, 0x02]" "0x05" ?s]
  from inst S have "push_bytes ?s [0xb0, 0x07, 0x64, 0x0a, 0x40] =
        Some (?s\<lparr>running_status := 0xb0, data := Data 0x0a 0x40 (slot2 (data ?s)),
                 data_size := 0, expected_data_size := 2\<rparr>,
              (if running_status ?s = 0xf0 then [SysExEnd] else []) @
              MessageReceived (Data 0x07 0x64 (slot2 (data ?s))) 0xb0 @
              MessageReceived (Data 0x0a 0x40 (slot2 (data ?s))) 0xb0)"
    by blast
  then have "map_option snd (push_bytes ?s [0xb0, 0x07, 0x64, 0x0a, 0x40]) =
     Some [ControlChange 0 0x07 0x64, ControlChange 0 0x0a 0x40]"
    by (simp add: init_parser_def ev)
  moreover from inst T
  have "\<exists>t' evs t''. push_bytes ?s (0xf2 # [0x01, 0x02]) = Some (t', evs) \<and>
      running_status t' = 0 \<and> expected_data_size t' = 0 \<and>
      PushByte t' 0x05 = Some (t'', [BozoByte 0x05])"
    by blast
  ultimately show ?thesis by blast
qed

text \<open>
  C4. \<^verbatim>\<open>PushByte(0xf0)\<close> calls \<^verbatim>\<open>SysExStart\<close>, after \<^verbatim>\<open>SysExEnd\<close> when the running status
  was already \<^verbatim>\<open>0xf0\<close>. With running status \<^verbatim>\<open>0xf0\<close>, a status byte \<^verbatim>\<open>b\<close> from \<^verbatim>\<open>0x80\<close>
  to \<^verbatim>\<open>0xf7\<close> calls \<^verbatim>\<open>SysExEnd\<close> first, and then does all that it does, calls and final
  state, when it arrives with any other running status.
\<close>

theorem sysex_framing:
  "PushByte s 0xf0 =
     Some (s\<lparr>data_size := 0, expected_data_size := 1, running_status := 0xf0\<rparr>,
           (if running_status s = 0xf0 then [SysExEnd] else []) @ [SysExStart]) \<and>
   (running_status t = 0xf0 \<and> 0x80 \<le> b \<and> b < 0xf8 \<and> r \<noteq> 0xf0 \<longrightarrow>
      (\<exists>t' evs. PushByte (t\<lparr>running_status := r\<rparr>) b = Some (t', evs) \<and>
                 PushByte t b = Some (t', SysExEnd # evs)))"
  by (simp add: PushByte_def push_status_def status_data_size_def complete_def word_cmp
      split: prod.splits)

text \<open>A program change that cuts a sysex run short.\<close>

theorem sysex_framing_witness:
  "PushByte (init_parser (Data 0 0 0)) 0xf0 =
     Some (\<lparr>running_status = 0xf0, data = Data 0 0 0, data_size = 0,
            expected_data_size = 1\<rparr>, [SysExStart]) \<and>
   (\<exists>t' evs.
      PushByte \<lparr>running_status = 0, data = Data 0 0 0, data_size = 0,
                expected_data_size = 1\<rparr> 0xc0 = Some (t', evs) \<and>
      PushByte \<lparr>running_status = 0xf0, data = Data 0 0 0, data_size = 0,
                expected_data_size = 1\<rparr> 0xc0 = Some (t', SysExEnd # evs))"
  using sysex_framing[of "init_parser (Data 0 0 0)"
      "\<lparr>running_status = 0xf0, data = Data 0 0 0, data_size = 0, expected_data_size = 1\<rparr>"
      "0xc0" "0"]
  by (simp add: init_parser_def)

text \<open>
  C5. \<^verbatim>\<open>PushByte\<close> returns for every byte in every state that meets the invariant of the
  parser state. Every byte sequence pushed from the constructed state is accepted, and
  leaves a state that meets the invariant; when that state has no running status, a data
  byte \<^verbatim>\<open>x < 0x80\<close> pushed next makes the one call \<^verbatim>\<open>BozoByte(x)\<close>.
\<close>

theorem PushByte_accepts_every_byte:
  "(parser_invariant t \<longrightarrow> PushByte t b \<noteq> None) \<and>
   (\<exists>s evs. push_bytes (init_parser d) bs = Some (s, evs) \<and> parser_invariant s \<and>
      (running_status s = 0 \<and> x < 0x80 \<longrightarrow>
         (\<exists>s'. PushByte s x = Some (s', [BozoByte x]))))"
proof (intro conjI impI)
  assume "parser_invariant t"
  from PushByte_invariant[OF this, of b] show "PushByte t b \<noteq> None" by auto
next
  have "parser_invariant (init_parser d)"
    and "running_status (init_parser d) = 0 \<longrightarrow> expected_data_size (init_parser d) = 0"
    by (simp_all add: parser_invariant_def init_parser_def)
  from push_bytes_reach[OF this, of bs] obtain s evs where
    s: "push_bytes (init_parser d) bs = Some (s, evs)" "parser_invariant s"
      "running_status s = 0 \<longrightarrow> expected_data_size s = 0"
    by blast
  have "\<exists>s'. PushByte s x = Some (s', [BozoByte x])" if "running_status s = 0" "x < 0x80"
  proof -
    from s(3) that have e: "expected_data_size s = 0" by simp
    with s(2) have "data_size s = 0" by (simp add: parser_invariant_def)
    from no_status_data_byte[OF that(1) e this that(2)] show ?thesis by blast
  qed
  with s show "\<exists>s evs. push_bytes (init_parser d) bs = Some (s, evs) \<and> parser_invariant s \<and>
      (running_status s = 0 \<and> x < 0x80 \<longrightarrow> (\<exists>s'. PushByte s x = Some (s', [BozoByte x])))"
    by blast
qed

text \<open>
  After a tune request (\<^verbatim>\<open>0xf6\<close>) there is no running status, and the data byte
  \<^verbatim>\<open>0x05\<close> is reported.
\<close>

theorem PushByte_accepts_every_byte_witness:
  "PushByte (init_parser (Data 0 0 0)) 0x40 \<noteq> None \<and>
   (\<exists>s evs. push_bytes (init_parser (Data 0 0 0)) [0xf6] = Some (s, evs) \<and>
      running_status s = 0 \<and> (0x05::uint8_t) < 0x80 \<and>
      (\<exists>s'. PushByte s 0x05 = Some (s', [BozoByte 0x05])))"
proof -
  let ?s = "init_parser (Data 0 0 0)"
  have inv: "parser_invariant ?s"
    by (simp add: parser_invariant_def init_parser_def)
  have run: "push_bytes ?s [0xf6] = Some (?s, [])"
    by (simp add: init_parser_def midi_defs word_cmp)
  from PushByte_accepts_every_byte[of ?s "0x40" "Data 0 0 0" "[0xf6]" "0x05"] inv
  obtain s evs where
    s: "PushByte ?s 0x40 \<noteq> None" "push_bytes ?s [0xf6] = Some (s, evs)"
      "running_status s = 0 \<and> (0x05::uint8_t) < 0x80 \<longrightarrow>
         (\<exists>s'. PushByte s 0x05 = Some (s', [BozoByte 0x05]))"
    by blast
  from s(2) run have "s = ?s" by simp
  then have "running_status s = 0 \<and> (0x05::uint8_t) < 0x80"
    by (simp add: init_parser_def)
  with s show ?thesis by blast
qed

text \<open>
  C6. The invariant \<^verbatim>\<open>data_size_ \<le> expected_data_size_ \<le> 2\<close>, with \<^verbatim>\<open>running_status_\<close>
  equal to 0 or a byte with bit 7 set, holds of the state the constructor leaves, whatever
  the array holds; and from a state where it holds, \<^verbatim>\<open>PushByte\<close> returns for every byte,
  in a state where it holds again.
\<close>

theorem parser_invariant_preserved:
  "parser_invariant (init_parser d) \<and>
   (parser_invariant s \<longrightarrow>
      (\<exists>s' evs. PushByte s b = Some (s', evs) \<and> parser_invariant s'))"
  using PushByte_invariant by (simp add: parser_invariant_def init_parser_def)

theorem parser_invariant_preserved_witness:
  "parser_invariant (init_parser (Data 0 0 0)) \<and>
   (\<exists>s' evs. PushByte (init_parser (Data 0 0 0)) 0x90 = Some (s', evs) \<and>
      parser_invariant s')"
  using parser_invariant_preserved[of "Data 0 0 0" "init_parser (Data 0 0 0)" "0x90"]
  by blast

text \<open>
  C10. With \<^verbatim>\<open>running_status_ = 0xf0\<close>, one call \<^verbatim>\<open>PushByte(0xf7)\<close> calls
  \<^verbatim>\<open>Device::SysExEnd\<close> twice: once because a status byte arrives while a sysex run
  is open, once more because \<^verbatim>\<open>0xf7\<close> expects no data byte and is dispatched at once.
  The call makes no other call on the device, and leaves no running status.
\<close>

theorem sysex_terminator_ends_twice:
  "running_status s = 0xf0 \<Longrightarrow>
   PushByte s 0xf7 =
     Some (s\<lparr>data_size := 0, expected_data_size := 0, running_status := 0\<rparr>,
           [SysExEnd, SysExEnd])"
  by (simp add: midi_defs word_cmp)

theorem sysex_terminator_ends_twice_witness:
  "PushByte \<lparr>running_status = 0xf0, data = Data 0 0 0, data_size = 0,
             expected_data_size = 1\<rparr> 0xf7 =
     Some (\<lparr>running_status = 0, data = Data 0 0 0, data_size = 0,
            expected_data_size = 0\<rparr>, [SysExEnd, SysExEnd])"
  using sysex_terminator_ends_twice
    [of "\<lparr>running_status = 0xf0, data = Data 0 0 0, data_size = 0, expected_data_size = 1\<rparr>"]
  by simp

section \<open>The display: skipped ticks, the bytes of a transmission, convergence\<close>

lemma and_15: "(k::int) AND 15 = k mod 16"
proof -
  have "k AND mask 4 = k mod 2 ^ 4"
    by (simp add: take_bit_eq_mod flip: take_bit_eq_mask)
  then show ?thesis by (simp add: mask_eq_exp_minus_1)
qed

lemma and_31: "(k::int) AND 31 = k mod 32"
proof -
  have "k AND mask 5 = k mod 2 ^ 5"
    by (simp add: take_bit_eq_mod flip: take_bit_eq_mask)
  then show ?thesis by (simp add: mask_eq_exp_minus_1)
qed

lemma not_start_of_row:
  "uint (sp::uint8_t) AND int (width - 1) \<noteq> 0 \<longleftrightarrow> unat sp mod width \<noteq> 0"
proof -
  have "uint sp mod 16 = int (unat sp mod 16)" by (simp add: zmod_int)
  then show ?thesis by (simp add: width_def and_15)
qed

lemma previous_position:
  "uint (sp::uint8_t) = uint (lw::uint8_t) + 1 \<longleftrightarrow> unat sp = unat lw + 1"
proof -
  have "0 \<le> uint sp" "0 \<le> uint lw" by simp_all
  then show ?thesis unfolding unat_eq_nat_uint by linarith
qed

lemma next_scan_position:
  "unat (word_of_int ((uint (sp::uint8_t) + 1) AND int lcd_buffer_size_wrap) :: uint8_t)
     < lcd_buffer_size"
proof -
  have "(uint sp + 1) mod 32 < 32" "0 \<le> (uint sp + 1) mod 32" by simp_all
  then have "unat (word_of_int ((uint sp + 1) mod 32) :: uint8_t) = nat ((uint sp + 1) mod 32)"
    by (simp add: unat_eq_nat_uint uint_word_of_int take_bit_int_eq_self)
  then show ?thesis
    by (simp add: lcd_buffer_size_wrap_def lcd_buffer_size_def width_def height_def and_31)
qed

lemma cursor_move_argument_bit7: "bit (cursor_move_argument sp) 7"
  by (simp add: cursor_move_argument_def bit_or_iff)

lemma cursor_move_argument_row_column:
  assumes "unat sp < lcd_buffer_size"
  shows "unat (cursor_move_argument sp) = 128 + 64 * (unat sp div width) + unat sp mod width"
proof -
  have cells: "list_all (\<lambda>n. unat (cursor_move_argument (word_of_nat n)) =
      128 + 64 * (unat (word_of_nat n :: uint8_t) div width) +
      unat (word_of_nat n :: uint8_t) mod width) [0..<32]"
    by code_simp
  from assms have "unat sp \<in> set [0..<32]"
    by (simp add: lcd_buffer_size_def width_def height_def)
  with cells have "unat (cursor_move_argument (word_of_nat (unat sp))) =
      128 + 64 * (unat (word_of_nat (unat sp) :: uint8_t) div width) +
      unat (word_of_nat (unat sp) :: uint8_t) mod width"
    unfolding list_all_iff by blast
  then show ?thesis by simp
qed

lemma tick_blink_clock_keeps [simp]:
  "local (tick_blink_clock d) = local d"
  "remote (tick_blink_clock d) = remote d"
  "scan_position (tick_blink_clock d) = scan_position d"
  "scan_position_last_write (tick_blink_clock d) = scan_position_last_write d"
  "cursor_position (tick_blink_clock d) = cursor_position d"
  by (simp_all add: tick_blink_clock_def Let_def)

lemma tick_blink_clock_status: "status d = 0 \<Longrightarrow> status (tick_blink_clock d) = 0"
  by (simp add: tick_blink_clock_def Let_def)

lemma transmit_bytes:
  "transmit d c =
     (if unat (scan_position d) = unat (scan_position_last_write d) + 1 \<and>
         unat (scan_position d) mod width \<noteq> 0
      then [c]
      else [0xfe, cursor_move_argument (scan_position d), c])"
  by (simp only: transmit_def previous_position not_start_of_row)

lemma Update_transmit:
  assumes "3 \<le> writable"
    and "resolve_character (tick_blink_clock d) = Some c"
    and "load (remote d) (scan_position d) = Some r"
    and "c \<noteq> r \<or> scan_position d = cursor_position d"
  shows "Update writable d =
     Some ((tick_blink_clock d)
             \<lparr>remote := (remote d)[unat (scan_position d) := c],
              scan_position_last_write := scan_position d,
              scan_position :=
                word_of_int ((uint (scan_position d) + 1) AND int lcd_buffer_size_wrap)\<rparr>,
           transmit (tick_blink_clock d) c)"
  using assms by (simp add: Update_def Let_def)

lemma Update_converged:
  assumes "remote d = local d"
    and "length (local d) = lcd_buffer_size"
    and "unat (scan_position d) < lcd_buffer_size"
    and "lcd_buffer_size \<le> unat (cursor_position d)"
    and "status d = 0"
  shows "\<exists>d'. Update w d = Some (d', []) \<and> remote d' = local d' \<and> local d' = local d \<and>
           unat (scan_position d') < lcd_buffer_size \<and>
           cursor_position d' = cursor_position d \<and> status d' = 0"
proof (cases "w < 3")
  case True
  with assms show ?thesis by (simp add: Update_def)
next
  case False
  from assms(3,4) have ne: "scan_position d \<noteq> cursor_position d" by auto
  have l: "load (local d) (scan_position d) = Some (local d ! unat (scan_position d))"
    using assms(2,3) by (simp add: load_def)
  have c: "resolve_character (tick_blink_clock d) = Some (local d ! unat (scan_position d))"
    using ne l assms(5) by (simp add: resolve_character_def tick_blink_clock_status)
  have "Update w d =
     Some ((tick_blink_clock d)
             \<lparr>scan_position :=
                word_of_int ((uint (scan_position d) + 1) AND int lcd_buffer_size_wrap)\<rparr>, [])"
    using False c l ne assms(1) by (simp add: Update_def Let_def)
  with assms next_scan_position[of "scan_position d"] show ?thesis
    by (simp add: tick_blink_clock_status)
qed

lemma Print_loop_keeps:
  "Print_loop page k row str = Some page' \<Longrightarrow>
     length page' = length page \<and> (\<forall>i<k. page' ! i = page ! i)"
proof (induction page k row str rule: Print_loop.induct)
  case (1 page destination row)
  then show ?case by simp
next
  case (2 page destination row character str)
  show ?case
  proof (cases "character = 0 \<or> row = 0")
    case True
    with "2.prems" show ?thesis by simp
  next
    case False
    with "2.prems" have len: "destination < length page"
      by (simp split: if_splits)
    with False "2.prems"
    have run: "Print_loop (page[destination := written_character character])
                 (destination + 1) (row - 1) str = Some page'"
      by simp
    from "2.IH"[OF False len run]
    have "length page' = length page"
      and "\<forall>i<destination + 1. page' ! i = page[destination := written_character character] ! i"
      by simp_all
    then show ?thesis by simp
  qed
qed

lemma Print_loop_again:
  "Print_loop page k row str = Some page' \<Longrightarrow> Print_loop page' k row str = Some page'"
proof (induction page k row str arbitrary: page' rule: Print_loop.induct)
  case (1 page destination row)
  then show ?case by simp
next
  case (2 page destination row character str)
  show ?case
  proof (cases "character = 0 \<or> row = 0")
    case True
    then show ?thesis by simp
  next
    case False
    with "2.prems" have len: "destination < length page"
      by (simp split: if_splits)
    with False "2.prems"
    have run: "Print_loop (page[destination := written_character character])
                 (destination + 1) (row - 1) str = Some page'"
      by simp
    from Print_loop_keeps[OF run] len
    have keep: "length page' = length page" "page' ! destination = written_character character"
      by simp_all
    from "2.IH"[OF False len run]
    have again: "Print_loop page' (destination + 1) (row - 1) str = Some page'" .
    have "page'[destination := written_character character] = page'"
      using list_update_id[of page' destination] by (simp only: keep(2))
    with again False len keep(1) show ?thesis by simp
  qed
qed


lemma Print_again:
  assumes "Print line str d0 = Some d"
  shows "Print line str d = Some d"
proof -
  let ?k = "push_bit (Log2 width) (unat line)"
  from assms obtain page where p: "Print_loop (local d0) ?k width str = Some page"
    by (cases "Print_loop (local d0) ?k width str") (simp_all add: Print_def)
  with assms have d: "d0\<lparr>local := page\<rparr> = d"
    by (simp add: Print_def)
  then have l: "local d = page" by auto
  have "d\<lparr>local := page\<rparr> = d"
    by (subst l[symmetric]) simp
  moreover from Print_loop_again[OF p] l have "Print_loop (local d) ?k width str = Some page"
    by simp
  ultimately show ?thesis by (simp add: Print_def)
qed


lemma Updates_converged:
  assumes "remote d = local d"
    and "length (local d) = lcd_buffer_size"
    and "unat (scan_position d) < lcd_buffer_size"
    and "lcd_buffer_size \<le> unat (cursor_position d)"
    and "status d = 0"
  shows "\<exists>d'. Updates ws d = Some (d', []) \<and> remote d' = local d' \<and> local d' = local d"
  using assms
proof (induction ws arbitrary: d)
  case Nil
  then show ?case by simp
next
  case (Cons w ws)
  from Update_converged[OF Cons.prems, of w] obtain d1 where
    d1: "Update w d = Some (d1, [])" "remote d1 = local d1" "local d1 = local d"
      "unat (scan_position d1) < lcd_buffer_size" "cursor_position d1 = cursor_position d"
      "status d1 = 0"
    by blast
  with Cons.prems
  have "\<exists>d'. Updates ws d1 = Some (d', []) \<and> remote d' = local d' \<and> local d' = local d1"
    by (intro Cons.IH) simp_all
  with d1 show ?case by auto
qed

text \<open>
  C7. When \<^verbatim>\<open>writable()\<close> is below 3, \<^verbatim>\<open>Update\<close> writes no byte and leaves every member
  as it was, whatever the two pages hold.
\<close>

theorem Update_skips_full_transport:
  "writable < 3 \<Longrightarrow> Update writable d = Some (d, [])"
  by (simp add: Update_def)

text \<open>Two free bytes, on a display that has every cell to send.\<close>

theorem Update_skips_full_transport_witness:
  "Update 2 (Init zero_display) = Some (Init zero_display, [])"
  using Update_skips_full_transport[of 2 "Init zero_display"] by simp

text \<open>
  C8. Let \<^verbatim>\<open>Update\<close> run with room for three bytes, let \<open>c\<close> be the character resolved
  for the scan position and \<open>r\<close> the one in \<^verbatim>\<open>remote_\<close> there, and let \<open>c\<close> differ from
  \<open>r\<close> or the scan position be the cursor position. Then the bytes written are \<open>c\<close> alone
  when the last write was at the position just before and the scan position is not the
  first column of a row, and otherwise \<^verbatim>\<open>0xfe\<close>, the address byte and \<open>c\<close>. The address
  byte has bit 7 set, and for a position on the display it is 128 plus 64 times the row
  plus the column. Afterwards \<^verbatim>\<open>remote_\<close> holds \<open>c\<close> at that position, which is the
  position of the last write.
\<close>

theorem Update_transmits_cell:
  assumes "3 \<le> writable"
    and "resolve_character (tick_blink_clock d) = Some c"
    and "load (remote d) (scan_position d) = Some r"
    and "c \<noteq> r \<or> scan_position d = cursor_position d"
  shows "\<exists>d'. Update writable d =
           Some (d', if unat (scan_position d) = unat (scan_position_last_write d) + 1 \<and>
                        unat (scan_position d) mod width \<noteq> 0
                     then [c]
                     else [0xfe, cursor_move_argument (scan_position d), c]) \<and>
         load (remote d') (scan_position d) = Some c \<and>
         scan_position_last_write d' = scan_position d \<and>
         bit (cursor_move_argument (scan_position d)) 7 \<and>
         (unat (scan_position d) < lcd_buffer_size \<longrightarrow>
            unat (cursor_move_argument (scan_position d)) =
              128 + 64 * (unat (scan_position d) div width) + unat (scan_position d) mod width)"
proof -
  let ?d' = "(tick_blink_clock d)
             \<lparr>remote := (remote d)[unat (scan_position d) := c],
              scan_position_last_write := scan_position d,
              scan_position :=
                word_of_int ((uint (scan_position d) + 1) AND int lcd_buffer_size_wrap)\<rparr>"
  from assms(3) have len: "unat (scan_position d) < length (remote d)"
    by (simp add: load_def split: if_splits)
  have "Update writable d =
           Some (?d', if unat (scan_position d) = unat (scan_position_last_write d) + 1 \<and>
                        unat (scan_position d) mod width \<noteq> 0
                     then [c]
                     else [0xfe, cursor_move_argument (scan_position d), c])"
    using Update_transmit[OF assms]
    by (simp only: transmit_bytes tick_blink_clock_keeps)
  moreover have "load (remote ?d') (scan_position d) = Some c"
    using len by (simp add: load_def)
  moreover have "scan_position_last_write ?d' = scan_position d"
    by simp
  ultimately show ?thesis
    using cursor_move_argument_bit7 cursor_move_argument_row_column by blast
qed

text \<open>
  The first cell of a display after \<^verbatim>\<open>Init\<close> takes a cursor move to address \<^verbatim>\<open>0x80\<close>; the
  second cell, right after it, takes the character alone.
\<close>

theorem Update_transmits_cell_witness:
  "(\<exists>d'. Update 3 (Init zero_display) = Some (d', [0xfe, 0x80, 0x20]) \<and>
      load (remote d') 0 = Some 0x20 \<and> scan_position_last_write d' = 0) \<and>
   (\<exists>d'. Update 3 ((Init zero_display)\<lparr>scan_position := 1, scan_position_last_write := 0\<rparr>) =
        Some (d', [0x20]) \<and>
      load (remote d') 1 = Some 0x20 \<and> scan_position_last_write d' = 1)"
proof -
  let ?a = "Init zero_display"
  let ?b = "(Init zero_display)\<lparr>scan_position := 1, scan_position_last_write := 0\<rparr>"
  have w: "(3::nat) \<le> 3" by simp
  have a: "resolve_character (tick_blink_clock ?a) = Some 0x20"
    "load (remote ?a) (scan_position ?a) = Some 0x3f"
    "(0x20::uint8_t) \<noteq> 0x3f \<or> scan_position ?a = cursor_position ?a"
    by code_simp+
  have b: "resolve_character (tick_blink_clock ?b) = Some 0x20"
    "load (remote ?b) (scan_position ?b) = Some 0x3f"
    "(0x20::uint8_t) \<noteq> 0x3f \<or> scan_position ?b = cursor_position ?b"
    by code_simp+
  have sa: "scan_position ?a = 0" "scan_position_last_write ?a = 255"
    and sb: "scan_position ?b = 1" "scan_position_last_write ?b = 0"
    by (simp_all add: Init_def zero_display_def)
  have arg: "cursor_move_argument 0 = 0x80" by code_simp
  from Update_transmits_cell[OF w a]
  have "\<exists>d'. Update 3 ?a = Some (d', [0xfe, 0x80, 0x20]) \<and>
      load (remote d') 0 = Some 0x20 \<and> scan_position_last_write d' = 0"
    by (auto simp: sa arg)
  moreover from Update_transmits_cell[OF w b]
  have "\<exists>d'. Update 3 ?b = Some (d', [0x20]) \<and>
      load (remote d') 1 = Some 0x20 \<and> scan_position_last_write d' = 1"
    by (auto simp: sb width_def)
  ultimately show ?thesis by blast
qed

text \<open>
  C9, as the code has it. On a display with no cursor on the screen (\<^verbatim>\<open>cursor_position_\<close>
  at or past \<^verbatim>\<open>width * height\<close>) and no status indicator pending, once \<^verbatim>\<open>remote_\<close> equals
  \<^verbatim>\<open>local_\<close>, any run of calls to \<^verbatim>\<open>Update\<close>, a full pass over the cells among them,
  writes no byte and leaves both pages as they were. And printing a text again on the line
  where \<^verbatim>\<open>Print\<close> has just put it leaves the display state as it is.
\<close>

theorem converged_display_fixed_point:
  assumes "remote d = local d"
    and "length (local d) = lcd_buffer_size"
    and "unat (scan_position d) < lcd_buffer_size"
    and "lcd_buffer_size \<le> unat (cursor_position d)"
    and "status d = 0"
  shows "(\<exists>d'. Updates ws d = Some (d', []) \<and> remote d' = local d' \<and> local d' = local d) \<and>
         (Print line str d0 = Some d \<longrightarrow> Print line str d = Some d)"
proof
  show "\<exists>d'. Updates ws d = Some (d', []) \<and> remote d' = local d' \<and> local d' = local d"
    by (rule Updates_converged[OF assms])
  show "Print line str d0 = Some d \<longrightarrow> Print line str d = Some d"
    using Print_again by blast
qed

text \<open>
  \<^verbatim>\<open>Hi\<close> printed on the first line of a display that already shows it, no cursor: the
  second \<^verbatim>\<open>Print\<close> changes nothing, and a pass of 32 calls to \<^verbatim>\<open>Update\<close> writes nothing.
\<close>

theorem converged_display_fixed_point_witness:
  "Print 0 [0x48, 0x69] ((Init zero_display)\<lparr>remote := remote hi_shown\<rparr>) = Some hi_shown \<and>
   Print 0 [0x48, 0x69] hi_shown = Some hi_shown \<and>
   (\<exists>d'. Updates (replicate 32 3) hi_shown = Some (d', []) \<and>
      remote d' = local d' \<and> local d' = local hi_shown)"
proof -
  have h: "remote hi_shown = local hi_shown" "length (local hi_shown) = lcd_buffer_size"
    "unat (scan_position hi_shown) < lcd_buffer_size"
    "lcd_buffer_size \<le> unat (cursor_position hi_shown)"
    "status hi_shown = 0"
    by (simp_all add: hi_shown_def Init_def zero_display_def lcd_buffer_size_def width_def
        height_def)
  have p: "Print 0 [0x48, 0x69] ((Init zero_display)\<lparr>remote := remote hi_shown\<rparr>) =
      Some hi_shown"
    by code_simp
  from converged_display_fixed_point[OF h, of "replicate 32 3" 0 "[0x48, 0x69]"
      "(Init zero_display)\<lparr>remote := remote hi_shown\<rparr>"] p
  show ?thesis by blast
qed

text \<open>
  With the cursor on the first cell, a display whose \<^verbatim>\<open>remote_\<close> equals \<^verbatim>\<open>local_\<close>, and
  equals the character resolved for every cell during the pass, still has a pass of 32
  calls write three bytes: the cursor cell is sent again each time it is scanned.
\<close>

theorem cursor_cell_resent_counterexample:
  "remote cursor_at_home = local cursor_at_home \<and> blink cursor_at_home = 0 \<and>
   status cursor_at_home = 0 \<and>
   map_option snd (Updates (replicate 32 3) cursor_at_home) = Some [0xfe, 0x80, 0x20]"
  by code_simp

end
